theory Spec2Isabelle
  imports Complex_Main
begin


section \<open>The store: tables of init\_db.sql\<close>

text \<open>
  Every table is a list of rows in insertion order. The REAL columns (prices, totals) are
  modelled as exact rationals; no statement below depends on rounding. An INTEGER column
  that may be NULL (\<open>availability\<close>) is an \<open>int option\<close>, \<open>None\<close> being NULL.
  Foreign keys are not enforced: the connection opened in db.js never switches them on.
\<close>

record basedish =
  dish_id :: int
  dish_name :: string

record size_row =
  size_id :: int
  size_name :: string
  size_price :: rat
  max_ingredients :: int

record ingredient =
  ing_id :: int
  ing_name :: string
  ing_price :: rat
  availability :: "int option"

record order_row =
  ord_id :: int
  ord_user_id :: int
  ord_dish_id :: int
  ord_size_id :: int
  ord_total :: rat

record db =
  basedishes :: "basedish list"
  sizes :: "size_row list"
  ingredients :: "ingredient list"
  ingredient_dependencies :: "(int \<times> int) list"
  ingredient_incompatibilities :: "(int \<times> int) list"
  orders :: "order_row list"
  order_ingredients :: "(int \<times> int) list"
  orders_seq :: int

text \<open>
  \<open>orders_seq\<close> is the sqlite\_sequence entry that AUTOINCREMENT keeps for the orders table:
  the largest id ever given out.

  The single connection of db.js: the store as the statements see it, and the snapshot
  taken by BEGIN TRANSACTION that ROLLBACK puts back (\<open>None\<close> outside a transaction).
\<close>

record conn =
  store :: db
  journal :: "db option"

definition idle :: "db \<Rightarrow> conn" where
  "idle d = \<lparr>store = d, journal = None\<rparr>"

definition beginTransaction :: "conn \<Rightarrow> conn option" where
  "beginTransaction c =
     (case journal c of
        None \<Rightarrow> Some (c\<lparr>journal := Some (store c)\<rparr>)
      | Some s \<Rightarrow> None)"

definition rollback :: "conn \<Rightarrow> conn" where
  "rollback c = (case journal c of None \<Rightarrow> c | Some s \<Rightarrow> \<lparr>store = s, journal = None\<rparr>)"

definition commit :: "conn \<Rightarrow> conn" where
  "commit c = c\<lparr>journal := None\<rparr>"

section \<open>Requests, errors and injected failures\<close>

text \<open>
  The body of POST /api/orders, after \<open>order.user_id = req.user.id\<close>. The server reads
  only the \<open>id\<close> of each element of \<open>ingredients\<close>; name and price travel with it.
\<close>

record order_item =
  item_id :: int
  item_name :: string
  item_price :: rat

record order_req =
  req_user_id :: int
  dishId :: int
  sizeId :: int
  req_ingredients :: "order_item list"
  req_total :: rat

text \<open>
  A name in an error message is either a name read from the ingredients table or the
  fallback text \<open>ingredient ID n\<close>.
\<close>

datatype label = Named string | IngredientID int

datatype error =
    Unprocessable
  | InvalidDish
  | InvalidSize
  | IngredientNotFound int
  | NotAvailable string
  | SizeLimit string int
  | Requires label label
  | IncompatibleWith label label
  | DatabaseError
  | FailedStartTransaction
  | FailedCreateOrder
  | FailedCommitOrder
  | FailedAddIngredients
  | FailedUpdateAvailability
  | FailedGetOrderIngredients
  | FailedRestoreAvailability
  | FailedDeleteOrderIngredients
  | FailedDeleteOrder
  | FailedCommitDeletion

text \<open>
  Every call to the store has an error callback. Which calls fail is an input of the model:
  a predicate on the awaited statements, the loops' statements carrying the loop index.
\<close>

datatype stmt =
    GetDishById
  | GetSizeById
  | GetIngredientsByIds
  | GetIngredientDependencies nat
  | GetMissingIngredient nat
  | GetIngredientIncompatibilities nat
  | GetFinalIngredients
  | BeginTransaction
  | InsertOrder
  | InsertOrderIngredient nat
  | UpdateAvailability nat
  | Commit
  | SelectOrderIngredients
  | RestoreAvailability nat
  | DeleteOrderIngredients
  | DeleteOrder

type_synonym faults = "stmt \<Rightarrow> bool"

definition nofaults :: faults where
  "nofaults = (\<lambda>s. False)"

section \<open>Catalog queries (dao-basedishes.js, dao-sizes.js, dao-ingredients.js)\<close>

definition getDishById :: "db \<Rightarrow> int \<Rightarrow> basedish option" where
  "getDishById d i = find (\<lambda>r. dish_id r = i) (basedishes d)"

definition getSizeById :: "db \<Rightarrow> int \<Rightarrow> size_row option" where
  "getSizeById d i = find (\<lambda>r. size_id r = i) (sizes d)"

definition getIngredientsByIds :: "db \<Rightarrow> int list \<Rightarrow> ingredient list" where
  "getIngredientsByIds d ingredientIds =
     (if ingredientIds = [] then []
      else filter (\<lambda>r. ing_id r \<in> set ingredientIds) (ingredients d))"

definition getIngredientDependencies :: "db \<Rightarrow> int \<Rightarrow> int list" where
  "getIngredientDependencies d i =
     map snd (filter (\<lambda>p. fst p = i) (ingredient_dependencies d))"

definition getIngredientIncompatibilities :: "db \<Rightarrow> int \<Rightarrow> int list" where
  "getIngredientIncompatibilities d i =
     map snd (filter (\<lambda>p. fst p = i) (ingredient_incompatibilities d))"

section \<open>Validation in POST /api/orders (index.js)\<close>

text \<open>
  The existence and availability loop. index.js has it twice, word for word: on the rows
  fetched for the first validation (lines 150-158) and on the rows fetched again just
  before the order is created (lines 219-227).
\<close>

fun checkAvailability :: "ingredient list \<Rightarrow> order_item list \<Rightarrow> error option" where
  "checkAvailability cur [] = None"
| "checkAvailability cur (orderIng # rest) =
     (case find (\<lambda>ing. ing_id ing = item_id orderIng) cur of
        None \<Rightarrow> Some (IngredientNotFound (item_id orderIng))
      | Some dbIng \<Rightarrow>
          if availability dbIng \<noteq> None \<and> availability dbIng = Some 0
          then Some (NotAvailable (ing_name dbIng))
          else checkAvailability cur rest)"

definition ingredientName :: "ingredient list \<Rightarrow> int \<Rightarrow> label" where
  "ingredientName cur i =
     (case find (\<lambda>ing. ing_id ing = i) cur of
        Some dbIngredient \<Rightarrow> Named (ing_name dbIngredient)
      | None \<Rightarrow> IngredientID i)"

text \<open>The name of a missing dependency (lines 178-186), with its own query.\<close>

definition requiredName :: "db \<Rightarrow> faults \<Rightarrow> nat \<Rightarrow> ingredient list \<Rightarrow> int \<Rightarrow> error + label" where
  "requiredName d flt k cur depId =
     (case find (\<lambda>ing. ing_id ing = depId) cur of
        Some reqIng \<Rightarrow> Inr (Named (ing_name reqIng))
      | None \<Rightarrow>
          if flt (GetMissingIngredient k) then Inl DatabaseError
          else (case getIngredientsByIds d [depId] of
                  [] \<Rightarrow> Inr (IngredientID depId)
                | m # ms \<Rightarrow> Inr (Named (ing_name m))))"

text \<open>The dependency loop (lines 166-190); \<open>k\<close> is the position of the candidate.\<close>

fun checkDependencies ::
  "db \<Rightarrow> faults \<Rightarrow> ingredient list \<Rightarrow> int list \<Rightarrow> nat \<Rightarrow> order_item list \<Rightarrow> error option" where
  "checkDependencies d flt cur ingredientIds k [] = None"
| "checkDependencies d flt cur ingredientIds k (ingredient # rest) =
     (if flt (GetIngredientDependencies k) then Some DatabaseError
      else (case find (\<lambda>depId. depId \<notin> set ingredientIds)
                   (getIngredientDependencies d (item_id ingredient)) of
              Some depId \<Rightarrow>
                (case requiredName d flt k cur depId of
                   Inl e \<Rightarrow> Some e
                 | Inr reqName \<Rightarrow>
                     Some (Requires (ingredientName cur (item_id ingredient)) reqName))
            | None \<Rightarrow> checkDependencies d flt cur ingredientIds (Suc k) rest))"

text \<open>The incompatibility loop (lines 193-210).\<close>

fun checkIncompatibilities ::
  "db \<Rightarrow> faults \<Rightarrow> ingredient list \<Rightarrow> int list \<Rightarrow> nat \<Rightarrow> order_item list \<Rightarrow> error option" where
  "checkIncompatibilities d flt cur ingredientIds k [] = None"
| "checkIncompatibilities d flt cur ingredientIds k (ingredient # rest) =
     (if flt (GetIngredientIncompatibilities k) then Some DatabaseError
      else (case find (\<lambda>incompId. incompId \<in> set ingredientIds)
                   (getIngredientIncompatibilities d (item_id ingredient)) of
              Some incompId \<Rightarrow>
                Some (IncompatibleWith (ingredientName cur (item_id ingredient))
                        (ingredientName cur incompId))
            | None \<Rightarrow> checkIncompatibilities d flt cur ingredientIds (Suc k) rest))"

text \<open>Lines 144-211: the checks on a non-empty ingredient list, given the size row.\<close>

definition validateIngredients :: "db \<Rightarrow> faults \<Rightarrow> size_row \<Rightarrow> order_item list \<Rightarrow> error option" where
  "validateIngredients d flt sizeInfo items =
     (if items = [] then None
      else if flt GetIngredientsByIds then Some DatabaseError
      else
        let ingredientIds = map item_id items;
            currentIngredients = getIngredientsByIds d ingredientIds
        in (case checkAvailability currentIngredients items of
              Some e \<Rightarrow> Some e
            | None \<Rightarrow>
                if int (length items) > max_ingredients sizeInfo
                then Some (SizeLimit (size_name sizeInfo) (max_ingredients sizeInfo))
                else (case checkDependencies d flt currentIngredients ingredientIds 0 items of
                        Some e \<Rightarrow> Some e
                      | None \<Rightarrow>
                          checkIncompatibilities d flt currentIngredients ingredientIds 0 items)))"

text \<open>
  Lines 114-211: the express-validator chain (on a typed request: both ids at least 1,
  the total at least 0), the dish, the size, then the ingredient checks.
\<close>

definition validateOrder :: "db \<Rightarrow> faults \<Rightarrow> order_req \<Rightarrow> error option" where
  "validateOrder d flt order =
     (if dishId order < 1 \<or> sizeId order < 1 \<or> req_total order < 0 then Some Unprocessable
      else if flt GetDishById then Some DatabaseError
      else (case getDishById d (dishId order) of
              None \<Rightarrow> Some InvalidDish
            | Some dishInfo \<Rightarrow>
                if flt GetSizeById then Some DatabaseError
                else (case getSizeById d (sizeId order) of
                        None \<Rightarrow> Some InvalidSize
                      | Some sizeInfo \<Rightarrow>
                          validateIngredients d flt sizeInfo (req_ingredients order))))"

text \<open>Lines 213-228: the check repeated just before the order is created.\<close>

definition finalCheck :: "db \<Rightarrow> faults \<Rightarrow> order_req \<Rightarrow> error option" where
  "finalCheck d flt order =
     (if req_ingredients order = [] then None
      else if flt GetFinalIngredients then Some DatabaseError
      else checkAvailability
             (getIngredientsByIds d (map item_id (req_ingredients order)))
             (req_ingredients order))"

section \<open>The order transactions (dao-orders.js)\<close>

definition nextOrderId :: "db \<Rightarrow> int" where
  "nextOrderId d = fold max (map ord_id (orders d)) (orders_seq d) + 1"

definition insertOrder :: "order_req \<Rightarrow> db \<Rightarrow> db" where
  "insertOrder order d =
     d\<lparr>orders := orders d @
          [\<lparr>ord_id = nextOrderId d, ord_user_id = req_user_id order,
            ord_dish_id = dishId order, ord_size_id = sizeId order,
            ord_total = req_total order\<rparr>],
       orders_seq := nextOrderId d\<rparr>"

text \<open>
  INSERT INTO order\_ingredients: the primary key (order\_id, ingredient\_id) refuses a pair
  that is already in the table.
\<close>

definition insertOrderIngredient :: "int \<Rightarrow> int \<Rightarrow> db \<Rightarrow> db option" where
  "insertOrderIngredient orderId i d =
     (if (orderId, i) \<in> set (order_ingredients d) then None
      else Some (d\<lparr>order_ingredients := order_ingredients d @ [(orderId, i)]\<rparr>))"

text \<open>
  UPDATE ingredients SET availability = availability - 1
  WHERE id = ? AND availability IS NOT NULL AND availability > 0.
  A statement that matches no row is not an error.
\<close>

definition decrementRow :: "ingredient \<Rightarrow> ingredient" where
  "decrementRow r =
     (case availability r of
        None \<Rightarrow> r
      | Some a \<Rightarrow> if a > 0 then r\<lparr>availability := Some (a - 1)\<rparr> else r)"

definition decrementAvailability :: "int \<Rightarrow> db \<Rightarrow> db" where
  "decrementAvailability i d =
     d\<lparr>ingredients := map (\<lambda>r. if ing_id r = i then decrementRow r else r) (ingredients d)\<rparr>"

text \<open>
  UPDATE ingredients SET availability = availability + 1
  WHERE id = ? AND availability IS NOT NULL.
\<close>

definition restoreRow :: "ingredient \<Rightarrow> ingredient" where
  "restoreRow r =
     (case availability r of
        None \<Rightarrow> r
      | Some a \<Rightarrow> r\<lparr>availability := Some (a + 1)\<rparr>)"

definition restoreAvailability :: "int \<Rightarrow> db \<Rightarrow> db" where
  "restoreAvailability i d =
     d\<lparr>ingredients := map (\<lambda>r. if ing_id r = i then restoreRow r else r) (ingredients d)\<rparr>"

text \<open>
  \<open>processNextIngredient\<close> of createOrder: the list is what is left of
  \<open>order.ingredients\<close> from \<open>currentIndex = k\<close> on. Every error callback issues ROLLBACK.
\<close>

fun processNextIngredient ::
  "faults \<Rightarrow> int \<Rightarrow> nat \<Rightarrow> order_item list \<Rightarrow> conn \<Rightarrow> (error + int) \<times> conn" where
  "processNextIngredient flt orderId k [] c =
     (if flt Commit then (Inl FailedCommitOrder, rollback c)
      else (Inr orderId, commit c))"
| "processNextIngredient flt orderId k (ing # rest) c =
     (if flt (InsertOrderIngredient k) then (Inl FailedAddIngredients, rollback c)
      else (case insertOrderIngredient orderId (item_id ing) (store c) of
              None \<Rightarrow> (Inl FailedAddIngredients, rollback c)
            | Some d1 \<Rightarrow>
                if flt (UpdateAvailability k)
                then (Inl FailedUpdateAvailability, rollback (c\<lparr>store := d1\<rparr>))
                else processNextIngredient flt orderId (Suc k) rest
                       (c\<lparr>store := decrementAvailability (item_id ing) d1\<rparr>)))"

definition createOrder :: "conn \<Rightarrow> faults \<Rightarrow> order_req \<Rightarrow> (error + int) \<times> conn" where
  "createOrder c flt order =
     (if flt BeginTransaction then (Inl FailedStartTransaction, c)
      else (case beginTransaction c of
              None \<Rightarrow> (Inl FailedStartTransaction, c)
            | Some c0 \<Rightarrow>
                if flt InsertOrder then (Inl FailedCreateOrder, rollback c0)
                else
                  let orderId = nextOrderId (store c0);
                      c1 = c0\<lparr>store := insertOrder order (store c0)\<rparr>
                  in if req_ingredients order = []
                     then (if flt Commit then (Inl FailedCommitOrder, rollback c1)
                           else (Inr orderId, commit c1))
                     else processNextIngredient flt orderId 0 (req_ingredients order) c1))"

text \<open>\<open>processNextRestore\<close> of deleteOrder, over the ingredient ids of the rows read.\<close>

definition deleteRows :: "int \<Rightarrow> int \<Rightarrow> db \<Rightarrow> db" where
  "deleteRows userId orderId d =
     d\<lparr>orders := filter (\<lambda>r. \<not> (ord_id r = orderId \<and> ord_user_id r = userId)) (orders d)\<rparr>"

definition rowsAffected :: "int \<Rightarrow> int \<Rightarrow> db \<Rightarrow> nat" where
  "rowsAffected userId orderId d =
     length (filter (\<lambda>r. ord_id r = orderId \<and> ord_user_id r = userId) (orders d))"

definition deleteOrderIngredients :: "int \<Rightarrow> db \<Rightarrow> db" where
  "deleteOrderIngredients orderId d =
     d\<lparr>order_ingredients := filter (\<lambda>p. fst p \<noteq> orderId) (order_ingredients d)\<rparr>"

fun processNextRestore ::
  "faults \<Rightarrow> int \<Rightarrow> int \<Rightarrow> nat \<Rightarrow> int list \<Rightarrow> conn \<Rightarrow> (error + nat) \<times> conn" where
  "processNextRestore flt userId orderId k [] c =
     (if flt DeleteOrderIngredients then (Inl FailedDeleteOrderIngredients, rollback c)
      else
        let c1 = c\<lparr>store := deleteOrderIngredients orderId (store c)\<rparr>
        in if flt DeleteOrder then (Inl FailedDeleteOrder, rollback c1)
           else
             let changes = rowsAffected userId orderId (store c1);
                 c2 = c1\<lparr>store := deleteRows userId orderId (store c1)\<rparr>
             in if flt Commit then (Inl FailedCommitDeletion, rollback c2)
                else (Inr changes, commit c2))"
| "processNextRestore flt userId orderId k (ingredient_id # rest) c =
     (if flt (RestoreAvailability k) then (Inl FailedRestoreAvailability, rollback c)
      else processNextRestore flt userId orderId (Suc k) rest
             (c\<lparr>store := restoreAvailability ingredient_id (store c)\<rparr>))"

definition deleteOrder :: "conn \<Rightarrow> faults \<Rightarrow> int \<Rightarrow> int \<Rightarrow> (error + nat) \<times> conn" where
  "deleteOrder c flt userId orderId =
     (if flt BeginTransaction then (Inl FailedStartTransaction, c)
      else (case beginTransaction c of
              None \<Rightarrow> (Inl FailedStartTransaction, c)
            | Some c0 \<Rightarrow>
                if flt SelectOrderIngredients
                then (Inl FailedGetOrderIngredients, rollback c0)
                else
                  let ingRows = map snd (filter (\<lambda>p. fst p = orderId)
                                           (order_ingredients (store c0)))
                  in processNextRestore flt userId orderId 0 ingRows c0))"

section \<open>The handler of POST /api/orders\<close>

text \<open>
  The handler awaits the store between its three phases, so each phase is given the store
  as it reads it: \<open>dv\<close> for the validation, \<open>df\<close> for the repeated availability check, and
  the connection \<open>c\<close> on which the transaction runs. \<open>postOrder\<close> is the handler when
  nothing else touches the store while it runs.
\<close>

definition postOrderAt ::
  "db \<Rightarrow> db \<Rightarrow> conn \<Rightarrow> faults \<Rightarrow> order_req \<Rightarrow> (error + int) \<times> conn" where
  "postOrderAt dv df c flt order =
     (case validateOrder dv flt order of
        Some e \<Rightarrow> (Inl e, c)
      | None \<Rightarrow>
          (case finalCheck df flt order of
             Some e \<Rightarrow> (Inl e, c)
           | None \<Rightarrow> createOrder c flt order))"

definition postOrder :: "conn \<Rightarrow> faults \<Rightarrow> order_req \<Rightarrow> (error + int) \<times> conn" where
  "postOrder c flt order = postOrderAt (store c) (store c) c flt order"

section \<open>The seed data of init\_db.sql\<close>

definition seed :: db where
  "seed =
     \<lparr>basedishes =
        [\<lparr>dish_id = 1, dish_name = ''Pizza''\<rparr>,
         \<lparr>dish_id = 2, dish_name = ''Pasta''\<rparr>,
         \<lparr>dish_id = 3, dish_name = ''Salad''\<rparr>],
      sizes =
        [\<lparr>size_id = 1, size_name = ''Small'', size_price = 5, max_ingredients = 3\<rparr>,
         \<lparr>size_id = 2, size_name = ''Medium'', size_price = 7, max_ingredients = 5\<rparr>,
         \<lparr>size_id = 3, size_name = ''Large'', size_price = 9, max_ingredients = 7\<rparr>],
      ingredients =
        [\<lparr>ing_id = 1, ing_name = ''Mozzarella'', ing_price = 1, availability = Some 3\<rparr>,
         \<lparr>ing_id = 2, ing_name = ''Tomatoes'', ing_price = 1 / 2, availability = None\<rparr>,
         \<lparr>ing_id = 3, ing_name = ''Mushrooms'', ing_price = 4 / 5, availability = Some 3\<rparr>,
         \<lparr>ing_id = 4, ing_name = ''Ham'', ing_price = 6 / 5, availability = Some 2\<rparr>,
         \<lparr>ing_id = 5, ing_name = ''Olives'', ing_price = 7 / 10, availability = None\<rparr>,
         \<lparr>ing_id = 6, ing_name = ''Tuna'', ing_price = 3 / 2, availability = Some 2\<rparr>,
         \<lparr>ing_id = 7, ing_name = ''Eggs'', ing_price = 1, availability = None\<rparr>,
         \<lparr>ing_id = 8, ing_name = ''Anchovies'', ing_price = 3 / 2, availability = Some 1\<rparr>,
         \<lparr>ing_id = 9, ing_name = ''Parmesan'', ing_price = 6 / 5, availability = None\<rparr>,
         \<lparr>ing_id = 10, ing_name = ''Carrots'', ing_price = 2 / 5, availability = None\<rparr>,
         \<lparr>ing_id = 11, ing_name = ''Potatoes'', ing_price = 3 / 10, availability = None\<rparr>],
      ingredient_dependencies = [(2, 5), (9, 1), (1, 2), (6, 5)],
      ingredient_incompatibilities =
        [(7, 3), (3, 7), (7, 2), (2, 7), (4, 3), (3, 4), (5, 8), (8, 5)],
      orders =
        [\<lparr>ord_id = 1, ord_user_id = 1, ord_dish_id = 1, ord_size_id = 1, ord_total = 31 / 5\<rparr>,
         \<lparr>ord_id = 2, ord_user_id = 1, ord_dish_id = 2, ord_size_id = 1, ord_total = 13 / 2\<rparr>,
         \<lparr>ord_id = 3, ord_user_id = 2, ord_dish_id = 2, ord_size_id = 2, ord_total = 97 / 10\<rparr>,
         \<lparr>ord_id = 4, ord_user_id = 2, ord_dish_id = 3, ord_size_id = 3, ord_total = 58 / 5\<rparr>],
      order_ingredients =
        [(1, 2), (1, 5), (2, 1), (2, 2), (3, 3), (3, 4), (3, 5), (4, 6), (4, 5), (4, 10)],
      orders_seq = 4\<rparr>"

section \<open>Concrete inputs\<close>

text \<open>A request element for an ingredient id; the server never reads the other fields.\<close>

definition item :: "int \<Rightarrow> order_item" where
  "item i = \<lparr>item_id = i, item_name = [], item_price = 0\<rparr>"

definition small_size :: size_row where
  "small_size = \<lparr>size_id = 1, size_name = ''Small'', size_price = 5, max_ingredients = 3\<rparr>"

definition small_order :: order_req where
  "small_order =
     \<lparr>req_user_id = 1, dishId = 1, sizeId = 2,
      req_ingredients = [item 1, item 2, item 5], req_total = 91 / 10\<rparr>"

definition double_olives :: order_req where
  "double_olives =
     \<lparr>req_user_id = 1, dishId = 1, sizeId = 1,
      req_ingredients = [item 5, item 5], req_total = 32 / 5\<rparr>"

definition anchovies_order :: "int \<Rightarrow> order_req" where
  "anchovies_order u =
     \<lparr>req_user_id = u, dishId = 1, sizeId = 1,
      req_ingredients = [item 8], req_total = 13 / 2\<rparr>"

definition free_order :: order_req where
  "free_order =
     \<lparr>req_user_id = 1, dishId = 1, sizeId = 1,
      req_ingredients = [item 5], req_total = 0\<rparr>"

definition olives_carrots :: order_req where
  "olives_carrots =
     \<lparr>req_user_id = 1, dishId = 3, sizeId = 1,
      req_ingredients = [item 5, item 10], req_total = 61 / 10\<rparr>"

definition anchovies_unknown :: order_req where
  "anchovies_unknown =
     \<lparr>req_user_id = 1, dishId = 1, sizeId = 1,
      req_ingredients = [item 8, item 99], req_total = 13 / 2\<rparr>"

text \<open>The seed after the one unit of Anchovies has been reserved.\<close>

definition sold_out :: db where
  "sold_out = decrementAvailability 8 seed"

text \<open>The seed with one more incompatible pair, Olives and Carrots, in both directions.\<close>

definition seed_changed :: db where
  "seed_changed =
     seed\<lparr>ingredient_incompatibilities :=
            ingredient_incompatibilities seed @ [(5, 10), (10, 5)]\<rparr>"

section \<open>Notions used in the statements\<close>

text \<open>
  The store after the loop of createOrder has gone through all of \<open>items\<close> without an
  error: for each one the association row, then the conditional decrement.
\<close>

fun reserved :: "int \<Rightarrow> order_item list \<Rightarrow> db \<Rightarrow> db" where
  "reserved orderId [] d = d"
| "reserved orderId (ing # rest) d =
     reserved orderId rest
       (decrementAvailability (item_id ing)
          (d\<lparr>order_ingredients := order_ingredients d @ [(orderId, item_id ing)]\<rparr>))"

text \<open>The rows that deleteOrder reads first: the ingredient ids recorded for an order.\<close>

definition orderIngredientIds :: "int \<Rightarrow> db \<Rightarrow> int list" where
  "orderIngredientIds oid d = map snd (filter (\<lambda>p. fst p = oid) (order_ingredients d))"

text \<open>
  The inventory invariant of the data model: a tracked availability is never negative.
\<close>

definition inventory_ok :: "ingredient list \<Rightarrow> bool" where
  "inventory_ok rows =
     list_all (\<lambda>r. case availability r of None \<Rightarrow> True | Some a \<Rightarrow> 0 \<le> a) rows"

text \<open>
  The availability column of the catalog row with a given id: \<open>None\<close> when the catalog has
  no such row, \<open>Some None\<close> for an unlimited ingredient, \<open>Some (Some n)\<close> for a tracked one.
\<close>

definition stock :: "db \<Rightarrow> int \<Rightarrow> int option option" where
  "stock d i = map_option availability (find (\<lambda>r. ing_id r = i) (ingredients d))"

text \<open>A candidate passes checks 1 and 2: its id is in the catalog and it is not at 0.\<close>

definition in_stock :: "db \<Rightarrow> int \<Rightarrow> bool" where
  "in_stock d i = (stock d i \<noteq> None \<and> stock d i \<noteq> Some (Some 0))"

text \<open>
  What the two UPDATE statements do to an availability value: the reservation takes one
  unit from a positive count, the release adds one to any count; NULL stays NULL.
\<close>

definition reserveUnit :: "int option \<Rightarrow> int option" where
  "reserveUnit a =
     (case a of None \<Rightarrow> None | Some n \<Rightarrow> if n > 0 then Some (n - 1) else Some n)"

definition releaseUnit :: "int option \<Rightarrow> int option" where
  "releaseUnit a = (case a of None \<Rightarrow> None | Some n \<Rightarrow> Some (n + 1))"

text \<open>
  The total as the specification words it: the price of the selected size plus the
  catalog prices of the selected ingredients. The server has no such computation; this
  definition only serves to compare.
\<close>

definition spec_total :: "db \<Rightarrow> order_req \<Rightarrow> rat option" where
  "spec_total d order =
     (case getSizeById d (sizeId order) of
        None \<Rightarrow> None
      | Some s \<Rightarrow>
          Some (size_price s +
                sum_list (map (\<lambda>x. case find (\<lambda>r. ing_id r = item_id x) (ingredients d) of
                                      None \<Rightarrow> 0
                                    | Some r \<Rightarrow> ing_price r)
                            (req_ingredients order))))"

section \<open>Incompatibility is checked in both directions\<close>

lemma checkIncompatibilities_None:
  "checkIncompatibilities d flt cur ids k items = None \<Longrightarrow> x \<in> set items \<Longrightarrow> b \<in> set ids
   \<Longrightarrow> (item_id x, b) \<notin> set (ingredient_incompatibilities d)"
proof (induction items arbitrary: k)
  case Nil
  then show ?case by simp
next
  case (Cons y ys)
  from Cons.prems(1)
  have nf: "find (\<lambda>i. i \<in> set ids) (getIngredientIncompatibilities d (item_id y)) = None"
    and rest: "checkIncompatibilities d flt cur ids (Suc k) ys = None"
    by (auto split: if_splits option.splits)
  show ?case
  proof (cases "x = y")
    case True
    from nf have "\<forall>i \<in> set (getIngredientIncompatibilities d (item_id y)). i \<notin> set ids"
      by (simp add: find_None_iff)
    with Cons.prems(3) True show ?thesis
      by (force simp: getIngredientIncompatibilities_def)
  next
    case False
    with Cons.prems(2) have "x \<in> set ys" by simp
    from Cons.IH[OF rest this Cons.prems(3)] show ?thesis .
  qed
qed

lemma validateOrder_None_incompat:
  assumes "validateOrder d flt order = None" and "req_ingredients order \<noteq> []"
  shows "checkIncompatibilities d flt
           (getIngredientsByIds d (map item_id (req_ingredients order)))
           (map item_id (req_ingredients order)) 0 (req_ingredients order) = None"
  using assms
  by (auto simp: validateOrder_def validateIngredients_def Let_def
           split: if_splits option.splits)

lemma small_order_valid: "validateOrder seed nofaults small_order = None"
  by (simp add: validateOrder_def small_order_def seed_def nofaults_def getDishById_def
        getSizeById_def validateIngredients_def getIngredientsByIds_def item_def
        getIngredientDependencies_def getIngredientIncompatibilities_def)

text \<open>
  C9. Whenever the validation of POST /api/orders accepts a request, no two of its
  ingredient ids are joined by a row of ingredient\_incompatibilities, in either direction:
  the loop queries \<open>ingredient1_id = id\<close> only, but it does so for every candidate.
\<close>

theorem incompatibility_undirected:
  assumes "validateOrder d flt order = None"
    and "a \<in> item_id ` set (req_ingredients order)"
    and "b \<in> item_id ` set (req_ingredients order)"
  shows "(a, b) \<notin> set (ingredient_incompatibilities d) \<and>
         (b, a) \<notin> set (ingredient_incompatibilities d)"
proof -
  from assms(2) have ne: "req_ingredients order \<noteq> []" by auto
  note chk = validateOrder_None_incompat[OF assms(1) ne]
  from assms(2) obtain x where x: "x \<in> set (req_ingredients order)" "a = item_id x" by auto
  from assms(3) obtain y where y: "y \<in> set (req_ingredients order)" "b = item_id y" by auto
  have "b \<in> set (map item_id (req_ingredients order))" using y by simp
  from checkIncompatibilities_None[OF chk x(1) this]
  have 1: "(a, b) \<notin> set (ingredient_incompatibilities d)" using x by simp
  have "a \<in> set (map item_id (req_ingredients order))" using x by simp
  from checkIncompatibilities_None[OF chk y(1) this]
  have 2: "(b, a) \<notin> set (ingredient_incompatibilities d)" using y by simp
  from 1 2 show ?thesis by simp
qed

theorem incompatibility_undirected_witness:
  "validateOrder seed nofaults small_order = None \<and>
   1 \<in> item_id ` set (req_ingredients small_order) \<and>
   2 \<in> item_id ` set (req_ingredients small_order) \<and>
   (1, 2) \<notin> set (ingredient_incompatibilities seed) \<and>
   (2, 1) \<notin> set (ingredient_incompatibilities seed)"
  using incompatibility_undirected[of seed nofaults small_order 1 2] small_order_valid
  by (simp add: small_order_def item_def)

section \<open>The transactions, case by case\<close>

lemma rollback_open: "journal c = Some s \<Longrightarrow> rollback c = idle s"
  by (simp add: rollback_def idle_def)

lemma rollback_store: "journal c = Some s \<Longrightarrow> rollback (c\<lparr>store := d\<rparr>) = idle s"
  by (simp add: rollback_def idle_def)

lemma commit_idle: "commit c = idle (store c)"
  by (simp add: commit_def idle_def)

lemma beginTransaction_idle: "beginTransaction (idle d) = Some \<lparr>store = d, journal = Some d\<rparr>"
  by (simp add: beginTransaction_def idle_def)

lemma processNextIngredient_cases:
  assumes "journal c = Some s"
  shows "(\<exists>e. processNextIngredient flt oid k items c = (Inl e, idle s)) \<or>
         (processNextIngredient flt oid k items c = (Inr oid, idle (reserved oid items (store c)))
          \<and> distinct (map item_id items)
          \<and> (\<forall>x \<in> set items. (oid, item_id x) \<notin> set (order_ingredients (store c)))
          \<and> \<not> flt Commit
          \<and> (\<forall>j < length items. \<not> flt (InsertOrderIngredient (k + j)) \<and> \<not> flt (UpdateAvailability (k + j))))"
  using assms
proof (induction items arbitrary: c k)
  case Nil
  then show ?case by (simp add: rollback_open commit_idle)
next
  case (Cons x xs)
  show ?case
  proof (cases "flt (InsertOrderIngredient k) \<or> (oid, item_id x) \<in> set (order_ingredients (store c)) \<or> flt (UpdateAvailability k)")
    case True
    then show ?thesis using Cons.prems
      by (auto simp: insertOrderIngredient_def rollback_open rollback_store)
  next
    case False
    let ?d1 = "(store c)\<lparr>order_ingredients := order_ingredients (store c) @ [(oid, item_id x)]\<rparr>"
    let ?c2 = "c\<lparr>store := decrementAvailability (item_id x) ?d1\<rparr>"
    have step: "processNextIngredient flt oid k (x # xs) c = processNextIngredient flt oid (Suc k) xs ?c2"
      using False by (simp add: insertOrderIngredient_def)
    have j: "journal ?c2 = Some s" using Cons.prems by simp
    have st: "store ?c2 = decrementAvailability (item_id x) ?d1" by simp
    have oi: "order_ingredients (store ?c2) = order_ingredients (store c) @ [(oid, item_id x)]"
      by (simp add: decrementAvailability_def)
    from Cons.IH[OF j, of "Suc k"] show ?thesis
    proof
      assume "\<exists>e. processNextIngredient flt oid (Suc k) xs ?c2 = (Inl e, idle s)"
      then show ?thesis using step by simp
    next
      assume a: "processNextIngredient flt oid (Suc k) xs ?c2 = (Inr oid, idle (reserved oid xs (store ?c2)))
          \<and> distinct (map item_id xs)
          \<and> (\<forall>y \<in> set xs. (oid, item_id y) \<notin> set (order_ingredients (store ?c2)))
          \<and> \<not> flt Commit
          \<and> (\<forall>j < length xs. \<not> flt (InsertOrderIngredient (Suc k + j)) \<and> \<not> flt (UpdateAvailability (Suc k + j)))"
      have fl: "\<forall>j < length (x # xs). \<not> flt (InsertOrderIngredient (k + j)) \<and> \<not> flt (UpdateAvailability (k + j))"
      proof (intro allI impI)
        fix j assume "j < length (x # xs)"
        show "\<not> flt (InsertOrderIngredient (k + j)) \<and> \<not> flt (UpdateAvailability (k + j))"
        proof (cases j)
          case 0
          then show ?thesis using False by simp
        next
          case (Suc j')
          with \<open>j < length (x # xs)\<close> have "j' < length xs" by simp
          with a Suc show ?thesis by simp
        qed
      qed
      have "processNextIngredient flt oid k (x # xs) c = (Inr oid, idle (reserved oid (x # xs) (store c)))"
        using a step by simp
      moreover have "distinct (map item_id (x # xs))"
        using a oi by auto
      moreover have "\<forall>y \<in> set (x # xs). (oid, item_id y) \<notin> set (order_ingredients (store c))"
        using a oi False by auto
      ultimately show ?thesis using a fl by blast
    qed
  qed
qed

lemma decrementAvailability_fields [simp]:
  "basedishes (decrementAvailability i d) = basedishes d"
  "sizes (decrementAvailability i d) = sizes d"
  "ingredient_dependencies (decrementAvailability i d) = ingredient_dependencies d"
  "ingredient_incompatibilities (decrementAvailability i d) = ingredient_incompatibilities d"
  "orders (decrementAvailability i d) = orders d"
  "order_ingredients (decrementAvailability i d) = order_ingredients d"
  "orders_seq (decrementAvailability i d) = orders_seq d"
  by (simp_all add: decrementAvailability_def)

lemma restoreAvailability_fields [simp]:
  "basedishes (restoreAvailability i d) = basedishes d"
  "sizes (restoreAvailability i d) = sizes d"
  "ingredient_dependencies (restoreAvailability i d) = ingredient_dependencies d"
  "ingredient_incompatibilities (restoreAvailability i d) = ingredient_incompatibilities d"
  "orders (restoreAvailability i d) = orders d"
  "order_ingredients (restoreAvailability i d) = order_ingredients d"
  "orders_seq (restoreAvailability i d) = orders_seq d"
  by (simp_all add: restoreAvailability_def)

lemma reserved_catalog:
  "basedishes (reserved oid xs d) = basedishes d \<and>
   sizes (reserved oid xs d) = sizes d \<and>
   ingredient_dependencies (reserved oid xs d) = ingredient_dependencies d \<and>
   ingredient_incompatibilities (reserved oid xs d) = ingredient_incompatibilities d \<and>
   orders (reserved oid xs d) = orders d \<and>
   orders_seq (reserved oid xs d) = orders_seq d"
  by (induction xs arbitrary: d) simp_all

lemma reserved_order_ingredients:
  "order_ingredients (reserved oid xs d) =
     order_ingredients d @ map (\<lambda>x. (oid, item_id x)) xs"
  by (induction xs arbitrary: d) simp_all

lemma reserved_ingredients:
  "ingredients (reserved oid xs d) =
     fold (\<lambda>x. map (\<lambda>r. if ing_id r = item_id x then decrementRow r else r)) xs (ingredients d)"
  by (induction xs arbitrary: d) (simp_all add: decrementAvailability_def)

lemma createOrder_cases:
  "(\<exists>e. createOrder (idle d) flt order = (Inl e, idle d)) \<or>
   (createOrder (idle d) flt order =
      (Inr (nextOrderId d),
       idle (reserved (nextOrderId d) (req_ingredients order) (insertOrder order d)))
    \<and> distinct (map item_id (req_ingredients order))
    \<and> (\<forall>x \<in> set (req_ingredients order).
          (nextOrderId d, item_id x) \<notin> set (order_ingredients d))
    \<and> \<not> flt BeginTransaction \<and> \<not> flt InsertOrder \<and> \<not> flt Commit
    \<and> (\<forall>j < length (req_ingredients order).
          \<not> flt (InsertOrderIngredient j) \<and> \<not> flt (UpdateAvailability j)))"
proof (cases "flt BeginTransaction \<or> flt InsertOrder")
  case True
  then show ?thesis
    by (auto simp: createOrder_def beginTransaction_idle rollback_open)
next
  case False
  let ?c1 = "\<lparr>store = insertOrder order d, journal = Some d\<rparr>"
  show ?thesis
  proof (cases "req_ingredients order = []")
    case True
    then show ?thesis using False
      by (simp add: createOrder_def beginTransaction_idle rollback_open commit_idle Let_def)
  next
    case ne: False
    have eq: "createOrder (idle d) flt order =
                processNextIngredient flt (nextOrderId d) 0 (req_ingredients order) ?c1"
      using False ne by (simp add: createOrder_def beginTransaction_idle Let_def)
    have j: "journal ?c1 = Some d" by simp
    have oi: "order_ingredients (insertOrder order d) = order_ingredients d"
      by (simp add: insertOrder_def)
    from processNextIngredient_cases[OF j, of flt "nextOrderId d" 0 "req_ingredients order"]
    show ?thesis using eq False oi by auto
  qed
qed

lemma restored_fields:
  "basedishes (fold restoreAvailability rows d) = basedishes d \<and>
   sizes (fold restoreAvailability rows d) = sizes d \<and>
   ingredient_dependencies (fold restoreAvailability rows d) = ingredient_dependencies d \<and>
   ingredient_incompatibilities (fold restoreAvailability rows d) = ingredient_incompatibilities d \<and>
   orders (fold restoreAvailability rows d) = orders d \<and>
   order_ingredients (fold restoreAvailability rows d) = order_ingredients d \<and>
   orders_seq (fold restoreAvailability rows d) = orders_seq d"
  by (induction rows arbitrary: d) simp_all

lemma restored_ingredients:
  "ingredients (fold restoreAvailability rows d) =
     fold (\<lambda>i. map (\<lambda>r. if ing_id r = i then restoreRow r else r)) rows (ingredients d)"
  by (induction rows arbitrary: d) (simp_all add: restoreAvailability_def)

lemma processNextRestore_cases:
  assumes "journal c = Some s"
  shows "(\<exists>e. processNextRestore flt u oid k rows c = (Inl e, idle s)) \<or>
         (processNextRestore flt u oid k rows c =
            (Inr (rowsAffected u oid (store c)),
             idle (deleteRows u oid (deleteOrderIngredients oid
                     (fold restoreAvailability rows (store c)))))
          \<and> \<not> flt DeleteOrderIngredients \<and> \<not> flt DeleteOrder \<and> \<not> flt Commit
          \<and> (\<forall>j < length rows. \<not> flt (RestoreAvailability (k + j))))"
  using assms
proof (induction rows arbitrary: c k)
  case Nil
  then show ?case
    by (simp add: rollback_open rollback_store commit_idle Let_def rowsAffected_def
          deleteOrderIngredients_def)
next
  case (Cons i rows)
  show ?case
  proof (cases "flt (RestoreAvailability k)")
    case True
    then show ?thesis using Cons.prems by (simp add: rollback_open)
  next
    case False
    let ?c1 = "c\<lparr>store := restoreAvailability i (store c)\<rparr>"
    have j: "journal ?c1 = Some s" using Cons.prems by simp
    have step: "processNextRestore flt u oid k (i # rows) c =
                processNextRestore flt u oid (Suc k) rows ?c1"
      using False by simp
    have ra: "rowsAffected u oid (store ?c1) = rowsAffected u oid (store c)"
      by (simp add: rowsAffected_def)
    from Cons.IH[OF j, of "Suc k"] show ?thesis
    proof
      assume "\<exists>e. processNextRestore flt u oid (Suc k) rows ?c1 = (Inl e, idle s)"
      then show ?thesis using step by simp
    next
      assume a: "processNextRestore flt u oid (Suc k) rows ?c1 =
            (Inr (rowsAffected u oid (store ?c1)),
             idle (deleteRows u oid (deleteOrderIngredients oid
                     (fold restoreAvailability rows (store ?c1)))))
          \<and> \<not> flt DeleteOrderIngredients \<and> \<not> flt DeleteOrder \<and> \<not> flt Commit
          \<and> (\<forall>j < length rows. \<not> flt (RestoreAvailability (Suc k + j)))"
      have fl: "\<forall>j < length (i # rows). \<not> flt (RestoreAvailability (k + j))"
      proof (intro allI impI)
        fix j assume "j < length (i # rows)"
        show "\<not> flt (RestoreAvailability (k + j))"
        proof (cases j)
          case 0
          then show ?thesis using False by simp
        next
          case (Suc j')
          with \<open>j < length (i # rows)\<close> have "j' < length rows" by simp
          with a Suc show ?thesis by simp
        qed
      qed
      have "processNextRestore flt u oid k (i # rows) c =
            (Inr (rowsAffected u oid (store c)),
             idle (deleteRows u oid (deleteOrderIngredients oid
                     (fold restoreAvailability (i # rows) (store c)))))"
        using a step ra by simp
      then show ?thesis using a fl by blast
    qed
  qed
qed

lemma deleteOrder_cases:
  "(\<exists>e. deleteOrder (idle d) flt u oid = (Inl e, idle d)) \<or>
   (deleteOrder (idle d) flt u oid =
      (Inr (rowsAffected u oid d),
       idle (deleteRows u oid (deleteOrderIngredients oid
               (fold restoreAvailability (orderIngredientIds oid d) d))))
    \<and> \<not> flt BeginTransaction \<and> \<not> flt SelectOrderIngredients
    \<and> \<not> flt DeleteOrderIngredients \<and> \<not> flt DeleteOrder \<and> \<not> flt Commit
    \<and> (\<forall>j < length (orderIngredientIds oid d). \<not> flt (RestoreAvailability j)))"
proof (cases "flt BeginTransaction \<or> flt SelectOrderIngredients")
  case True
  then show ?thesis
    by (auto simp: deleteOrder_def beginTransaction_idle rollback_open)
next
  case False
  let ?c0 = "\<lparr>store = d, journal = Some d\<rparr>"
  have eq: "deleteOrder (idle d) flt u oid =
              processNextRestore flt u oid 0 (orderIngredientIds oid d) ?c0"
    using False by (simp add: deleteOrder_def beginTransaction_idle Let_def orderIngredientIds_def)
  have j: "journal ?c0 = Some d" by simp
  from processNextRestore_cases[OF j, of flt u oid 0 "orderIngredientIds oid d"]
  show ?thesis using eq False by auto
qed

section \<open>Atomicity of createOrder\<close>

text \<open>
  C6. createOrder is atomic. Started on a connection with no open transaction, it either
  fails and leaves the connection exactly as it was (every table of the store, and no
  transaction open), or it returns the new order id with the order row, one association
  row per listed ingredient and every conditional decrement committed together. A failure
  of the order insert, of the N-th association insert or of the N-th availability update
  always gives the first outcome.
\<close>

theorem createOrder_atomic:
  "((\<exists>e. createOrder (idle d) flt order = (Inl e, idle d)) \<or>
    (\<exists>c'. createOrder (idle d) flt order = (Inr (nextOrderId d), c') \<and>
       journal c' = None \<and>
       orders (store c') = orders d @
         [\<lparr>ord_id = nextOrderId d, ord_user_id = req_user_id order,
           ord_dish_id = dishId order, ord_size_id = sizeId order,
           ord_total = req_total order\<rparr>] \<and>
       order_ingredients (store c') = order_ingredients d @
         map (\<lambda>x. (nextOrderId d, item_id x)) (req_ingredients order) \<and>
       ingredients (store c') =
         fold (\<lambda>x. map (\<lambda>r. if ing_id r = item_id x then decrementRow r else r))
           (req_ingredients order) (ingredients d))) \<and>
   (flt InsertOrder \<or>
    (\<exists>j < length (req_ingredients order).
        flt (InsertOrderIngredient j) \<or> flt (UpdateAvailability j))
    \<longrightarrow> (\<exists>e. createOrder (idle d) flt order = (Inl e, idle d)))"
proof (intro conjI impI)
  let ?d' = "reserved (nextOrderId d) (req_ingredients order) (insertOrder order d)"
  have f: "journal (idle ?d') = None \<and>
       orders (store (idle ?d')) = orders d @
         [\<lparr>ord_id = nextOrderId d, ord_user_id = req_user_id order,
           ord_dish_id = dishId order, ord_size_id = sizeId order,
           ord_total = req_total order\<rparr>] \<and>
       order_ingredients (store (idle ?d')) = order_ingredients d @
         map (\<lambda>x. (nextOrderId d, item_id x)) (req_ingredients order) \<and>
       ingredients (store (idle ?d')) =
         fold (\<lambda>x. map (\<lambda>r. if ing_id r = item_id x then decrementRow r else r))
           (req_ingredients order) (ingredients d)"
    by (simp add: idle_def reserved_catalog reserved_order_ingredients reserved_ingredients
          insertOrder_def)
  from createOrder_cases[of d flt order]
  show "(\<exists>e. createOrder (idle d) flt order = (Inl e, idle d)) \<or>
    (\<exists>c'. createOrder (idle d) flt order = (Inr (nextOrderId d), c') \<and>
       journal c' = None \<and>
       orders (store c') = orders d @
         [\<lparr>ord_id = nextOrderId d, ord_user_id = req_user_id order,
           ord_dish_id = dishId order, ord_size_id = sizeId order,
           ord_total = req_total order\<rparr>] \<and>
       order_ingredients (store c') = order_ingredients d @
         map (\<lambda>x. (nextOrderId d, item_id x)) (req_ingredients order) \<and>
       ingredients (store c') =
         fold (\<lambda>x. map (\<lambda>r. if ing_id r = item_id x then decrementRow r else r))
           (req_ingredients order) (ingredients d))"
  proof
    assume "\<exists>e. createOrder (idle d) flt order = (Inl e, idle d)"
    then show ?thesis by (rule disjI1)
  next
    assume "createOrder (idle d) flt order = (Inr (nextOrderId d), idle ?d')
      \<and> distinct (map item_id (req_ingredients order))
      \<and> (\<forall>x \<in> set (req_ingredients order).
          (nextOrderId d, item_id x) \<notin> set (order_ingredients d))
      \<and> \<not> flt BeginTransaction \<and> \<not> flt InsertOrder \<and> \<not> flt Commit
      \<and> (\<forall>j < length (req_ingredients order).
          \<not> flt (InsertOrderIngredient j) \<and> \<not> flt (UpdateAvailability j))"
    then have "createOrder (idle d) flt order = (Inr (nextOrderId d), idle ?d')" by simp
    with f show ?thesis by blast
  qed
next
  assume flt: "flt InsertOrder \<or>
    (\<exists>j < length (req_ingredients order).
        flt (InsertOrderIngredient j) \<or> flt (UpdateAvailability j))"
  from createOrder_cases[of d flt order] flt
  show "\<exists>e. createOrder (idle d) flt order = (Inl e, idle d)" by blast
qed

theorem createOrder_atomic_witness:
  "(\<exists>j < length (req_ingredients small_order).
      (\<lambda>s. s = UpdateAvailability 1) (InsertOrderIngredient j) \<or>
      (\<lambda>s. s = UpdateAvailability 1) (UpdateAvailability j)) \<and>
   createOrder (idle seed) (\<lambda>s. s = UpdateAvailability 1) small_order =
     (Inl FailedUpdateAvailability, idle seed)"
proof -
  have h: "\<exists>j < length (req_ingredients small_order).
      (\<lambda>s. s = UpdateAvailability 1) (InsertOrderIngredient j) \<or>
      (\<lambda>s. s = UpdateAvailability 1) (UpdateAvailability j)"
    by (rule exI[of _ 1]) (simp add: small_order_def)
  from createOrder_atomic[of seed "\<lambda>s. s = UpdateAvailability 1" small_order] h
  have "\<exists>e. createOrder (idle seed) (\<lambda>s. s = UpdateAvailability 1) small_order = (Inl e, idle seed)"
    by blast
  moreover have "fst (createOrder (idle seed) (\<lambda>s. s = UpdateAvailability 1) small_order) =
      Inl FailedUpdateAvailability"
    by (simp add: createOrder_def small_order_def item_def idle_def beginTransaction_def
          insertOrder_def insertOrderIngredient_def nextOrderId_def seed_def Let_def)
  ultimately show ?thesis using h by auto
qed

section \<open>A repeated ingredient id\<close>

lemma processNextIngredient_nofaults_error:
  "processNextIngredient nofaults oid k items c = (Inl e, c') \<Longrightarrow> e = FailedAddIngredients"
  by (induction items arbitrary: c k)
     (auto simp: nofaults_def split: option.splits)

lemma createOrder_nofaults_error:
  "createOrder c nofaults order = (Inl e, c') \<Longrightarrow> journal c = None \<Longrightarrow> e = FailedAddIngredients"
  by (auto simp: createOrder_def beginTransaction_def Let_def nofaults_def
           split: if_splits option.splits
           dest: processNextIngredient_nofaults_error[unfolded nofaults_def])

text \<open>
  C10. When the ingredient list given to createOrder holds the same id twice, the insert
  of the repeated pair is refused by the primary key of order\_ingredients, the
  transaction is rolled back and the call is rejected (with \<open>Failed to add ingredients\<close>
  when no statement fails for another reason): no order row, no association row and no
  availability change is left.
\<close>

theorem duplicate_ingredient_rejected:
  assumes "\<not> distinct (map item_id (req_ingredients order))"
  shows "createOrder (idle d) nofaults order = (Inl FailedAddIngredients, idle d) \<and>
         (\<exists>e. createOrder (idle d) flt order = (Inl e, idle d))"
proof
  from createOrder_cases[of d nofaults order] assms
  obtain e where e: "createOrder (idle d) nofaults order = (Inl e, idle d)" by blast
  have "journal (idle d) = None" by (simp add: idle_def)
  from createOrder_nofaults_error[OF e this] e
  show "createOrder (idle d) nofaults order = (Inl FailedAddIngredients, idle d)" by simp
next
  from createOrder_cases[of d flt order] assms
  show "\<exists>e. createOrder (idle d) flt order = (Inl e, idle d)" by blast
qed

theorem duplicate_ingredient_rejected_witness:
  "\<not> distinct (map item_id (req_ingredients double_olives)) \<and>
   validateOrder seed nofaults double_olives = None \<and>
   createOrder (idle seed) nofaults double_olives = (Inl FailedAddIngredients, idle seed)"
proof -
  have h: "\<not> distinct (map item_id (req_ingredients double_olives))"
    by (simp add: double_olives_def item_def)
  have v: "validateOrder seed nofaults double_olives = None"
    by (simp add: validateOrder_def double_olives_def seed_def nofaults_def getDishById_def
        getSizeById_def validateIngredients_def getIngredientsByIds_def item_def
        getIngredientDependencies_def getIngredientIncompatibilities_def)
  from duplicate_ingredient_rejected[OF h, of seed nofaults] h v show ?thesis by simp
qed

section \<open>The inventory invariant\<close>

lemma inventory_ok_decrement:
  "inventory_ok rows \<Longrightarrow>
   inventory_ok (map (\<lambda>r. if ing_id r = i then decrementRow r else r) rows)"
  by (auto simp: inventory_ok_def list_all_iff decrementRow_def split: option.splits if_splits)

lemma inventory_ok_restore:
  "inventory_ok rows \<Longrightarrow>
   inventory_ok (map (\<lambda>r. if ing_id r = i then restoreRow r else r) rows)"
  by (auto simp: inventory_ok_def list_all_iff restoreRow_def split: option.splits)

lemma inventory_ok_reserved:
  "inventory_ok rows \<Longrightarrow>
   inventory_ok (fold (\<lambda>x. map (\<lambda>r. if ing_id r = item_id x then decrementRow r else r)) xs rows)"
  by (induction xs arbitrary: rows) (simp_all add: inventory_ok_decrement)

lemma inventory_ok_restored:
  "inventory_ok rows \<Longrightarrow>
   inventory_ok (fold (\<lambda>i. map (\<lambda>r. if ing_id r = i then restoreRow r else r)) xs rows)"
  by (induction xs arbitrary: rows) (simp_all add: inventory_ok_restore)

lemma unlimited_decrement:
  "filter (\<lambda>r. availability r = None) (map (\<lambda>r. if ing_id r = i then decrementRow r else r) rows) =
   filter (\<lambda>r. availability r = None) rows"
  by (induction rows) (auto simp: decrementRow_def split: option.splits)

lemma unlimited_restore:
  "filter (\<lambda>r. availability r = None) (map (\<lambda>r. if ing_id r = i then restoreRow r else r) rows) =
   filter (\<lambda>r. availability r = None) rows"
  by (induction rows) (auto simp: restoreRow_def split: option.splits)

lemma unlimited_reserved:
  "filter (\<lambda>r. availability r = None)
     (fold (\<lambda>x. map (\<lambda>r. if ing_id r = item_id x then decrementRow r else r)) xs rows) =
   filter (\<lambda>r. availability r = None) rows"
  by (induction xs arbitrary: rows) (simp_all add: unlimited_decrement)

lemma unlimited_restored:
  "filter (\<lambda>r. availability r = None)
     (fold (\<lambda>i. map (\<lambda>r. if ing_id r = i then restoreRow r else r)) xs rows) =
   filter (\<lambda>r. availability r = None) rows"
  by (induction xs arbitrary: rows) (simp_all add: unlimited_restore)

lemma createOrder_ingredients:
  "ingredients (store (snd (createOrder (idle d) flt order))) = ingredients d \<or>
   ingredients (store (snd (createOrder (idle d) flt order))) =
     fold (\<lambda>x. map (\<lambda>r. if ing_id r = item_id x then decrementRow r else r))
       (req_ingredients order) (ingredients d)"
proof -
  have "ingredients (insertOrder order d) = ingredients d" by (simp add: insertOrder_def)
  with createOrder_cases[of d flt order] show ?thesis
    by (auto simp: idle_def reserved_ingredients)
qed

lemma postOrderAt_ingredients:
  "ingredients (store (snd (postOrderAt dv df (idle d) flt order))) = ingredients d \<or>
   ingredients (store (snd (postOrderAt dv df (idle d) flt order))) =
     fold (\<lambda>x. map (\<lambda>r. if ing_id r = item_id x then decrementRow r else r))
       (req_ingredients order) (ingredients d)"
  using createOrder_ingredients[of d flt order]
  by (auto simp: postOrderAt_def idle_def split: option.splits)

lemma deleteOrder_ingredients:
  "ingredients (store (snd (deleteOrder (idle d) flt u oid))) = ingredients d \<or>
   ingredients (store (snd (deleteOrder (idle d) flt u oid))) =
     fold (\<lambda>i. map (\<lambda>r. if ing_id r = i then restoreRow r else r))
       (orderIngredientIds oid d) (ingredients d)"
  using deleteOrder_cases[of d flt u oid]
  by (auto simp: idle_def restored_ingredients deleteRows_def deleteOrderIngredients_def)

text \<open>
  C7. createOrder (the transaction alone, and behind the handler's validation) and
  deleteOrder preserve the inventory invariant, whatever statements fail: if no tracked
  availability is negative before the call, none is after it; and the rows whose
  availability is NULL (unlimited) are exactly the same rows after the call as before,
  so an unlimited ingredient is neither decremented by a reservation nor incremented by
  a release.
\<close>

theorem inventory_invariant:
  assumes "inventory_ok (ingredients d)"
  shows "inventory_ok (ingredients (store (snd (createOrder (idle d) flt order)))) \<and>
         inventory_ok (ingredients (store (snd (postOrderAt dv df (idle d) flt order)))) \<and>
         inventory_ok (ingredients (store (snd (deleteOrder (idle d) flt u oid)))) \<and>
         filter (\<lambda>r. availability r = None)
             (ingredients (store (snd (createOrder (idle d) flt order)))) =
           filter (\<lambda>r. availability r = None) (ingredients d) \<and>
         filter (\<lambda>r. availability r = None)
             (ingredients (store (snd (postOrderAt dv df (idle d) flt order)))) =
           filter (\<lambda>r. availability r = None) (ingredients d) \<and>
         filter (\<lambda>r. availability r = None)
             (ingredients (store (snd (deleteOrder (idle d) flt u oid)))) =
           filter (\<lambda>r. availability r = None) (ingredients d)"
proof (intro conjI)
  show "inventory_ok (ingredients (store (snd (createOrder (idle d) flt order))))"
    using createOrder_ingredients[of d flt order] assms
    by (auto simp: inventory_ok_reserved)
  show "inventory_ok (ingredients (store (snd (postOrderAt dv df (idle d) flt order))))"
    using postOrderAt_ingredients[of dv df d flt order] assms
    by (auto simp: inventory_ok_reserved)
  show "inventory_ok (ingredients (store (snd (deleteOrder (idle d) flt u oid))))"
    using deleteOrder_ingredients[of d flt u oid] assms
    by (auto simp: inventory_ok_restored)
  show "filter (\<lambda>r. availability r = None)
             (ingredients (store (snd (createOrder (idle d) flt order)))) =
           filter (\<lambda>r. availability r = None) (ingredients d)"
    using createOrder_ingredients[of d flt order]
    by (auto simp: unlimited_reserved)
  show "filter (\<lambda>r. availability r = None)
             (ingredients (store (snd (postOrderAt dv df (idle d) flt order)))) =
           filter (\<lambda>r. availability r = None) (ingredients d)"
    using postOrderAt_ingredients[of dv df d flt order]
    by (auto simp: unlimited_reserved)
  show "filter (\<lambda>r. availability r = None)
             (ingredients (store (snd (deleteOrder (idle d) flt u oid)))) =
           filter (\<lambda>r. availability r = None) (ingredients d)"
    using deleteOrder_ingredients[of d flt u oid]
    by (auto simp: unlimited_restored)
qed

lemma seed_inventory_ok: "inventory_ok (ingredients seed)"
  by (simp add: inventory_ok_def seed_def)

theorem inventory_invariant_witness:
  "inventory_ok (ingredients seed) \<and>
   inventory_ok (ingredients (store (snd (createOrder (idle seed) nofaults (anchovies_order 1))))) \<and>
   stock (store (snd (createOrder (idle seed) nofaults (anchovies_order 1)))) 8 = Some (Some 0) \<and>
   inventory_ok (ingredients (store (snd (deleteOrder (idle seed) nofaults 2 3)))) \<and>
   stock (store (snd (deleteOrder (idle seed) nofaults 2 3))) 5 = Some None"
proof -
  have 1: "stock (store (snd (createOrder (idle seed) nofaults (anchovies_order 1)))) 8 = Some (Some 0)"
    by (simp add: stock_def createOrder_def anchovies_order_def item_def idle_def nofaults_def
          beginTransaction_def insertOrder_def insertOrderIngredient_def nextOrderId_def
          decrementAvailability_def decrementRow_def commit_def seed_def Let_def)
  have 2: "stock (store (snd (deleteOrder (idle seed) nofaults 2 3))) 5 = Some None"
    by (simp add: stock_def deleteOrder_def idle_def nofaults_def
          beginTransaction_def restoreAvailability_def restoreRow_def commit_def
          deleteOrderIngredients_def deleteRows_def rowsAffected_def seed_def Let_def)
  from inventory_invariant[OF seed_inventory_ok, of nofaults "anchovies_order 1" seed seed 2 3]
    seed_inventory_ok 1 2
  show ?thesis by simp
qed

section \<open>Concrete runs on the seed data\<close>

lemmas eval_defs =
  postOrder_def postOrderAt_def validateOrder_def validateIngredients_def finalCheck_def
  getDishById_def getSizeById_def getIngredientsByIds_def getIngredientDependencies_def
  getIngredientIncompatibilities_def ingredientName_def requiredName_def
  createOrder_def deleteOrder_def beginTransaction_def rollback_def commit_def idle_def
  nextOrderId_def insertOrder_def insertOrderIngredient_def decrementAvailability_def
  decrementRow_def restoreAvailability_def restoreRow_def deleteOrderIngredients_def
  deleteRows_def rowsAffected_def nofaults_def item_def stock_def Let_def

text \<open>
  C1. deleteOrder called by user 1 for order 3, which belongs to user 2. No order row
  matches both ids, the call returns 0 rows affected and the order row stays; yet the
  three association rows of order 3 are gone and the availabilities of Mushrooms and Ham
  have gone up by one, committed: the release loop and the association delete are keyed
  by the order id alone, only the last DELETE also by the user id.
\<close>

theorem deleteOrder_foreign_order:
  "filter (\<lambda>r. ord_id r = 3 \<and> ord_user_id r = 1) (orders seed) = [] \<and>
   fst (deleteOrder (idle seed) nofaults 1 3) = Inr 0 \<and>
   orders (store (snd (deleteOrder (idle seed) nofaults 1 3))) = orders seed \<and>
   orderIngredientIds 3 seed = [3, 4, 5] \<and>
   orderIngredientIds 3 (store (snd (deleteOrder (idle seed) nofaults 1 3))) = [] \<and>
   stock seed 3 = Some (Some 3) \<and>
   stock (store (snd (deleteOrder (idle seed) nofaults 1 3))) 3 = Some (Some 4) \<and>
   stock seed 4 = Some (Some 2) \<and>
   stock (store (snd (deleteOrder (idle seed) nofaults 1 3))) 4 = Some (Some 3) \<and>
   journal (snd (deleteOrder (idle seed) nofaults 1 3)) = None"
  by (simp add: eval_defs orderIngredientIds_def seed_def)

text \<open>
  C4. One unit of Anchovies is left. Two requests for it, from users 1 and 2, both have
  the validation and the repeated availability check answered on that state. The first
  transaction takes the unit; the second, run on the connection the first has left,
  commits as well: its conditional decrement matches no row, which is not an error, so
  both orders hold Anchovies while one unit was in stock. In general createOrder commits
  an order for an ingredient that is at 0 when the transaction runs.
\<close>

theorem scarce_ingredient_reserved_twice:
  "stock seed 8 = Some (Some 1) \<and>
   fst (postOrderAt seed seed (idle seed) nofaults (anchovies_order 1)) = Inr 5 \<and>
   stock (store (snd (postOrderAt seed seed (idle seed) nofaults (anchovies_order 1)))) 8 =
     Some (Some 0) \<and>
   fst (postOrderAt seed seed
          (snd (postOrderAt seed seed (idle seed) nofaults (anchovies_order 1)))
          nofaults (anchovies_order 2)) = Inr 6 \<and>
   stock (store (snd (postOrderAt seed seed
                        (snd (postOrderAt seed seed (idle seed) nofaults (anchovies_order 1)))
                        nofaults (anchovies_order 2)))) 8 = Some (Some 0) \<and>
   filter (\<lambda>p. snd p = 8)
     (order_ingredients
        (store (snd (postOrderAt seed seed
                       (snd (postOrderAt seed seed (idle seed) nofaults (anchovies_order 1)))
                       nofaults (anchovies_order 2))))) = [(5, 8), (6, 8)] \<and>
   stock sold_out 8 = Some (Some 0) \<and>
   fst (createOrder (idle sold_out) nofaults (anchovies_order 2)) = Inr 5 \<and>
   orderIngredientIds 5 (store (snd (createOrder (idle sold_out) nofaults (anchovies_order 2)))) =
     [8]"
  by (simp add: eval_defs orderIngredientIds_def anchovies_order_def sold_out_def seed_def)

section \<open>The persisted total\<close>

text \<open>
  The claim C3 fails: a request for a Small dish (5.00) with Olives (0.70) and total 0 is
  accepted and its row stores 0.
\<close>

theorem total_from_catalog_counterexample:
  "fst (postOrder (idle seed) nofaults free_order) = Inr 5 \<and>
   map ord_total (filter (\<lambda>r. ord_id r = 5)
                    (orders (store (snd (postOrder (idle seed) nofaults free_order))))) = [0] \<and>
   spec_total seed free_order = Some (57 / 10)"
  by (simp add: eval_defs spec_total_def free_order_def seed_def)

lemma postOrderAt_accepted:
  assumes "postOrderAt dv df c flt order = (Inr oid, c')"
  shows "validateOrder dv flt order = None \<and> finalCheck df flt order = None \<and>
         createOrder c flt order = (Inr oid, c')"
  using assms by (auto simp: postOrderAt_def split: option.splits)

text \<open>
  C3, as the code has it. The total stored in the row of an accepted order is the
  \<open>total\<close> field of the request, which the validator chain only requires to be at least
  0; the row is appended to the orders table with the request's user, dish and size.
\<close>

theorem total_as_requested:
  assumes "postOrderAt dv df (idle d) flt order = (Inr oid, c')"
  shows "orders (store c') = orders d @
           [\<lparr>ord_id = oid, ord_user_id = req_user_id order, ord_dish_id = dishId order,
             ord_size_id = sizeId order, ord_total = req_total order\<rparr>] \<and>
         0 \<le> req_total order"
proof
  from postOrderAt_accepted[OF assms]
  have v: "validateOrder dv flt order = None"
    and c: "createOrder (idle d) flt order = (Inr oid, c')" by simp_all
  from createOrder_cases[of d flt order] c
  have "oid = nextOrderId d"
    and "c' = idle (reserved (nextOrderId d) (req_ingredients order) (insertOrder order d))"
    by auto
  then show "orders (store c') = orders d @
           [\<lparr>ord_id = oid, ord_user_id = req_user_id order, ord_dish_id = dishId order,
             ord_size_id = sizeId order, ord_total = req_total order\<rparr>]"
    by (simp add: idle_def reserved_catalog insertOrder_def)
  from v show "0 \<le> req_total order"
    by (auto simp: validateOrder_def split: if_splits)
qed

theorem total_as_requested_witness:
  "postOrderAt seed seed (idle seed) nofaults free_order =
     (Inr 5, snd (postOrderAt seed seed (idle seed) nofaults free_order)) \<and>
   orders (store (snd (postOrderAt seed seed (idle seed) nofaults free_order))) =
     orders seed @
       [\<lparr>ord_id = 5, ord_user_id = 1, ord_dish_id = 1, ord_size_id = 1, ord_total = 0\<rparr>]"
proof -
  have "fst (postOrderAt seed seed (idle seed) nofaults free_order) = Inr 5"
    by (simp add: eval_defs free_order_def seed_def)
  then have a: "postOrderAt seed seed (idle seed) nofaults free_order =
     (Inr 5, snd (postOrderAt seed seed (idle seed) nofaults free_order))"
    by (metis prod.collapse)
  from total_as_requested[OF a] a show ?thesis
    by (simp add: free_order_def)
qed

section \<open>What is checked again before the order is created\<close>

lemma find_filter: "find P (filter Q xs) = find (\<lambda>x. Q x \<and> P x) xs"
  by (induction xs) auto

lemma find_member:
  "i \<in> A \<Longrightarrow> find (\<lambda>r. ing_id r \<in> A \<and> ing_id r = i) xs = find (\<lambda>r. ing_id r = i) xs"
  by (induction xs) auto

lemma find_fetched:
  "i \<in> set ids \<Longrightarrow>
   find (\<lambda>r. ing_id r = i) (getIngredientsByIds d ids) = find (\<lambda>r. ing_id r = i) (ingredients d)"
  by (auto simp: getIngredientsByIds_def find_filter find_member)

lemma in_stock_find:
  "in_stock d i \<longleftrightarrow>
   (\<exists>r. find (\<lambda>r. ing_id r = i) (ingredients d) = Some r \<and> availability r \<noteq> Some 0)"
  by (cases "find (\<lambda>r. ing_id r = i) (ingredients d)") (auto simp: in_stock_def stock_def)

lemma checkAvailability_None:
  assumes "item_id ` set items \<subseteq> set ids"
  shows "checkAvailability (getIngredientsByIds d ids) items = None \<longleftrightarrow>
         (\<forall>x \<in> set items. in_stock d (item_id x))"
  using assms
proof (induction items)
  case Nil
  then show ?case by simp
next
  case (Cons y ys)
  then have y: "item_id y \<in> set ids" and ys: "item_id ` set ys \<subseteq> set ids" by auto
  show ?case
    using Cons.IH[OF ys]
    by (auto simp: find_fetched[OF y] in_stock_find split: option.splits)
qed

lemma checkAvailability_first:
  assumes "item_id ` set (pre @ x # post) \<subseteq> set ids"
    and "\<forall>y \<in> set pre. in_stock d (item_id y)"
  shows "checkAvailability (getIngredientsByIds d ids) (pre @ x # post) =
         (case find (\<lambda>r. ing_id r = item_id x) (ingredients d) of
            None \<Rightarrow> Some (IngredientNotFound (item_id x))
          | Some r \<Rightarrow>
              if availability r = Some 0 then Some (NotAvailable (ing_name r))
              else checkAvailability (getIngredientsByIds d ids) post)"
  using assms
proof (induction pre)
  case Nil
  then have "item_id x \<in> set ids" by simp
  then show ?case by (simp add: find_fetched split: option.splits)
next
  case (Cons y ys)
  then have y: "item_id y \<in> set ids" and ok: "in_stock d (item_id y)" by auto
  from Cons have ih: "checkAvailability (getIngredientsByIds d ids) (ys @ x # post) =
         (case find (\<lambda>r. ing_id r = item_id x) (ingredients d) of
            None \<Rightarrow> Some (IngredientNotFound (item_id x))
          | Some r \<Rightarrow>
              if availability r = Some 0 then Some (NotAvailable (ing_name r))
              else checkAvailability (getIngredientsByIds d ids) post)" by auto
  from ok obtain r where "find (\<lambda>r. ing_id r = item_id y) (ingredients d) = Some r"
      "availability r \<noteq> Some 0"
    by (auto simp: in_stock_find)
  then show ?case using ih by (simp add: find_fetched[OF y])
qed

lemma finalCheck_None:
  "finalCheck df flt order = None \<longleftrightarrow>
     req_ingredients order = [] \<or>
     (\<not> flt GetFinalIngredients \<and> (\<forall>x \<in> set (req_ingredients order). in_stock df (item_id x)))"
proof -
  have "item_id ` set (req_ingredients order) \<subseteq> set (map item_id (req_ingredients order))"
    by auto
  from checkAvailability_None[OF this, of df] show ?thesis
    by (auto simp: finalCheck_def)
qed

text \<open>
  The claim C2 fails. The request for Olives and Carrots passes all five checks on the
  catalog as the validation reads it. By the time of the repeated check the catalog
  holds an incompatibility between them: the request now violates check 5, the repeated
  check passes all the same, and the order is persisted with both ingredients.
\<close>

theorem revalidation_all_checks_counterexample:
  "validateOrder seed nofaults olives_carrots = None \<and>
   validateOrder seed_changed nofaults olives_carrots =
     Some (IncompatibleWith (Named ''Olives'') (Named ''Carrots'')) \<and>
   finalCheck seed_changed nofaults olives_carrots = None \<and>
   fst (postOrderAt seed seed_changed (idle seed_changed) nofaults olives_carrots) = Inr 5 \<and>
   orderIngredientIds 5
     (store (snd (postOrderAt seed seed_changed (idle seed_changed) nofaults olives_carrots))) =
     [5, 10]"
  by (simp add: eval_defs orderIngredientIds_def olives_carrots_def seed_changed_def seed_def)

text \<open>
  C2, as the code has it. An accepted request has passed the whole validation on the
  store as the validation read it, and the repeated check on the store as read just
  before the order is created. The repeated check is checks 1 and 2 only: it passes
  exactly when the list is empty, or the query answers and every candidate is in the
  catalog with an availability other than 0. Size capacity, dependencies and
  incompatibilities are not looked at again.
\<close>

theorem revalidation_existence_availability:
  "(postOrderAt dv df c flt order = (Inr oid, c') \<longrightarrow>
      validateOrder dv flt order = None \<and> finalCheck df flt order = None) \<and>
   (finalCheck df flt order = None \<longleftrightarrow>
      req_ingredients order = [] \<or>
      (\<not> flt GetFinalIngredients \<and>
       (\<forall>x \<in> set (req_ingredients order). in_stock df (item_id x))))"
  using postOrderAt_accepted[of dv df c flt order oid c'] finalCheck_None[of df flt order]
  by blast

theorem revalidation_existence_availability_witness:
  "postOrderAt seed seed_changed (idle seed_changed) nofaults olives_carrots =
     (Inr 5, snd (postOrderAt seed seed_changed (idle seed_changed) nofaults olives_carrots)) \<and>
   validateOrder seed nofaults olives_carrots = None \<and>
   finalCheck seed_changed nofaults olives_carrots = None \<and>
   in_stock seed_changed 5 \<and> in_stock seed_changed 10"
proof -
  have "fst (postOrderAt seed seed_changed (idle seed_changed) nofaults olives_carrots) = Inr 5"
    by (simp add: eval_defs olives_carrots_def seed_changed_def seed_def)
  then have a: "postOrderAt seed seed_changed (idle seed_changed) nofaults olives_carrots =
     (Inr 5, snd (postOrderAt seed seed_changed (idle seed_changed) nofaults olives_carrots))"
    by (metis prod.collapse)
  note t = revalidation_existence_availability[of seed seed_changed "idle seed_changed" nofaults
      olives_carrots 5 "snd (postOrderAt seed seed_changed (idle seed_changed) nofaults olives_carrots)"]
  from t a have v: "validateOrder seed nofaults olives_carrots = None"
    and f: "finalCheck seed_changed nofaults olives_carrots = None" by blast+
  have ne: "req_ingredients olives_carrots \<noteq> []" by (simp add: olives_carrots_def)
  from t f ne have "\<forall>x \<in> set (req_ingredients olives_carrots). in_stock seed_changed (item_id x)"
    by blast
  then have "in_stock seed_changed 5 \<and> in_stock seed_changed 10"
    by (simp add: olives_carrots_def item_def)
  with a v f show ?thesis by simp
qed

section \<open>The order of the checks\<close>

lemma stock_None_find:
  "stock d i = None \<longleftrightarrow> find (\<lambda>r. ing_id r = i) (ingredients d) = None"
  by (simp add: stock_def)

lemma stock_zero_find:
  "stock d i = Some (Some 0) \<longleftrightarrow>
   (\<exists>r. find (\<lambda>r. ing_id r = i) (ingredients d) = Some r \<and> availability r = Some 0)"
  by (cases "find (\<lambda>r. ing_id r = i) (ingredients d)") (auto simp: stock_def)

lemma validateIngredients_first:
  assumes "\<forall>y \<in> set pre. in_stock d (item_id y)"
  shows "find (\<lambda>r. ing_id r = item_id x) (ingredients d) = None \<Longrightarrow>
           validateIngredients d nofaults sz (pre @ x # post) =
             Some (IngredientNotFound (item_id x))"
    and "find (\<lambda>r. ing_id r = item_id x) (ingredients d) = Some r \<Longrightarrow>
         availability r = Some 0 \<Longrightarrow>
           validateIngredients d nofaults sz (pre @ x # post) =
             Some (NotAvailable (ing_name r))"
proof -
  have sub: "item_id ` set (pre @ x # post) \<subseteq> set (map item_id (pre @ x # post))" by auto
  note first = checkAvailability_first[OF sub assms]
  show "find (\<lambda>r. ing_id r = item_id x) (ingredients d) = None \<Longrightarrow>
           validateIngredients d nofaults sz (pre @ x # post) =
             Some (IngredientNotFound (item_id x))"
    using first by (simp add: validateIngredients_def nofaults_def Let_def del: map_append)
  show "find (\<lambda>r. ing_id r = item_id x) (ingredients d) = Some r \<Longrightarrow>
         availability r = Some 0 \<Longrightarrow>
           validateIngredients d nofaults sz (pre @ x # post) =
             Some (NotAvailable (ing_name r))"
    using first by (simp add: validateIngredients_def nofaults_def Let_def del: map_append)
qed

lemma set_getIngredientDependencies:
  "set (getIngredientDependencies d i) = {dep. (i, dep) \<in> set (ingredient_dependencies d)}"
  by (force simp: getIngredientDependencies_def)

lemma requiredName_nofaults: "\<exists>l. requiredName d nofaults k cur depId = Inr l"
  by (simp add: requiredName_def nofaults_def split: option.splits list.splits)

lemma checkDependencies_missing:
  assumes "\<exists>y \<in> set items. \<exists>dep. (item_id y, dep) \<in> set (ingredient_dependencies d) \<and> dep \<notin> set ids"
  shows "\<exists>a b. checkDependencies d nofaults cur ids k items = Some (Requires a b)"
  using assms
proof (induction items arbitrary: k)
  case Nil
  then show ?case by simp
next
  case (Cons y ys)
  show ?case
  proof (cases "find (\<lambda>depId. depId \<notin> set ids) (getIngredientDependencies d (item_id y))")
    case (Some depId)
    from requiredName_nofaults[of d k cur depId] obtain l
      where "requiredName d nofaults k cur depId = Inr l" ..
    with Some show ?thesis by (simp add: nofaults_def)
  next
    case None
    then have "\<forall>dep. (item_id y, dep) \<in> set (ingredient_dependencies d) \<longrightarrow> dep \<in> set ids"
      by (auto simp: find_None_iff set_getIngredientDependencies)
    with Cons.prems
    have "\<exists>y \<in> set ys. \<exists>dep. (item_id y, dep) \<in> set (ingredient_dependencies d) \<and> dep \<notin> set ids"
      by auto
    from Cons.IH[OF this, of "Suc k"] None show ?thesis by (simp add: nofaults_def)
  qed
qed

text \<open>
  The claim C5 fails. With Anchovies at 0, the list [Anchovies, 99] holds an out-of-stock
  ingredient and an id that is not in the catalog; the violation reported is that
  Anchovies is not available, not that 99 is unknown.
\<close>

theorem existence_first_counterexample:
  "map item_id (req_ingredients anchovies_unknown) = [8, 99] \<and>
   stock sold_out 99 = None \<and>
   stock sold_out 8 = Some (Some 0) \<and>
   validateOrder sold_out nofaults anchovies_unknown = Some (NotAvailable ''Anchovies'')"
  by (simp add: eval_defs anchovies_unknown_def sold_out_def seed_def)

text \<open>
  C5, as the code has it. Existence and availability are tested together, candidate by
  candidate in input order, and the first candidate that fails either test decides:
  unknown id if it is not in the catalog, out of stock if it is there at 0. Only when
  every candidate passes both does the size limit apply; only when the size limit holds
  is a missing dependency reported, so before any incompatibility. (As reported when
  every query answers.)
\<close>

theorem validation_precedence:
  "((\<forall>y \<in> set pre. in_stock d (item_id y)) \<and> stock d (item_id x) = None \<longrightarrow>
      validateIngredients d nofaults sz (pre @ x # post) =
        Some (IngredientNotFound (item_id x))) \<and>
   ((\<forall>y \<in> set pre. in_stock d (item_id y)) \<and> stock d (item_id x) = Some (Some 0) \<longrightarrow>
      (\<exists>r. find (\<lambda>r. ing_id r = item_id x) (ingredients d) = Some r \<and>
           validateIngredients d nofaults sz (pre @ x # post) =
             Some (NotAvailable (ing_name r)))) \<and>
   (items \<noteq> [] \<and> (\<forall>y \<in> set items. in_stock d (item_id y)) \<and>
    int (length items) > max_ingredients sz \<longrightarrow>
      validateIngredients d nofaults sz items =
        Some (SizeLimit (size_name sz) (max_ingredients sz))) \<and>
   ((\<forall>y \<in> set items. in_stock d (item_id y)) \<and>
    int (length items) \<le> max_ingredients sz \<and>
    (\<exists>y \<in> set items. \<exists>dep. (item_id y, dep) \<in> set (ingredient_dependencies d) \<and>
                              dep \<notin> item_id ` set items) \<longrightarrow>
      (\<exists>a b. validateIngredients d nofaults sz items = Some (Requires a b)))"
proof (intro conjI impI)
  assume a: "(\<forall>y \<in> set pre. in_stock d (item_id y)) \<and> stock d (item_id x) = None"
  then have "find (\<lambda>r. ing_id r = item_id x) (ingredients d) = None"
    by (simp add: stock_None_find)
  with validateIngredients_first(1)[of pre d x sz post] a
  show "validateIngredients d nofaults sz (pre @ x # post) = Some (IngredientNotFound (item_id x))"
    by simp
next
  assume a: "(\<forall>y \<in> set pre. in_stock d (item_id y)) \<and> stock d (item_id x) = Some (Some 0)"
  then obtain r where r: "find (\<lambda>r. ing_id r = item_id x) (ingredients d) = Some r"
      "availability r = Some 0"
    by (auto simp: stock_zero_find)
  with validateIngredients_first(2)[of pre d x r sz post] a
  have "validateIngredients d nofaults sz (pre @ x # post) = Some (NotAvailable (ing_name r))"
    by simp
  with r show "\<exists>r. find (\<lambda>r. ing_id r = item_id x) (ingredients d) = Some r \<and>
           validateIngredients d nofaults sz (pre @ x # post) = Some (NotAvailable (ing_name r))"
    by blast
next
  assume a: "items \<noteq> [] \<and> (\<forall>y \<in> set items. in_stock d (item_id y)) \<and>
    int (length items) > max_ingredients sz"
  have "item_id ` set items \<subseteq> set (map item_id items)" by auto
  from checkAvailability_None[OF this, of d] a
  have "checkAvailability (getIngredientsByIds d (map item_id items)) items = None" by simp
  with a show "validateIngredients d nofaults sz items =
        Some (SizeLimit (size_name sz) (max_ingredients sz))"
    by (simp add: validateIngredients_def nofaults_def Let_def)
next
  assume a: "(\<forall>y \<in> set items. in_stock d (item_id y)) \<and>
    int (length items) \<le> max_ingredients sz \<and>
    (\<exists>y \<in> set items. \<exists>dep. (item_id y, dep) \<in> set (ingredient_dependencies d) \<and>
                              dep \<notin> item_id ` set items)"
  then have ne: "items \<noteq> []" by auto
  have "item_id ` set items \<subseteq> set (map item_id items)" by auto
  from checkAvailability_None[OF this, of d] a
  have ca: "checkAvailability (getIngredientsByIds d (map item_id items)) items = None" by simp
  from a have "\<exists>y \<in> set items. \<exists>dep. (item_id y, dep) \<in> set (ingredient_dependencies d) \<and>
                              dep \<notin> set (map item_id items)" by simp
  from checkDependencies_missing[OF this] obtain a' b'
    where "checkDependencies d nofaults (getIngredientsByIds d (map item_id items))
             (map item_id items) 0 items = Some (Requires a' b')" 
    by blast
  with ca a ne have "validateIngredients d nofaults sz items = Some (Requires a' b')"
    by (simp add: validateIngredients_def nofaults_def Let_def)
  then show "\<exists>a b. validateIngredients d nofaults sz items = Some (Requires a b)" by blast
qed

theorem validation_precedence_witness:
  "validateIngredients sold_out nofaults small_size [item 5, item 99, item 8] =
     Some (IngredientNotFound 99) \<and>
   validateIngredients sold_out nofaults small_size [item 5, item 8, item 99] =
     Some (NotAvailable ''Anchovies'') \<and>
   validateIngredients sold_out nofaults small_size [item 1, item 2, item 5, item 10] =
     Some (SizeLimit ''Small'' 3) \<and>
   (\<exists>a b. validateIngredients sold_out nofaults small_size [item 1] = Some (Requires a b))"
proof -
  have st: "in_stock sold_out 1" "in_stock sold_out 2" "in_stock sold_out 5"
      "in_stock sold_out 10" "stock sold_out 99 = None" "stock sold_out 8 = Some (Some 0)"
    by (simp_all add: in_stock_def stock_def sold_out_def decrementAvailability_def
          decrementRow_def seed_def)
  have f: "find (\<lambda>r. ing_id r = 8) (ingredients sold_out) =
             Some \<lparr>ing_id = 8, ing_name = ''Anchovies'', ing_price = 3 / 2,
                   availability = Some 0\<rparr>"
    by (simp add: sold_out_def decrementAvailability_def decrementRow_def seed_def)
  have dep: "(1, 2) \<in> set (ingredient_dependencies sold_out)"
    by (simp add: sold_out_def decrementAvailability_def seed_def)
  note t1 = validation_precedence[of "[item 5]" sold_out "item 99" small_size "[item 8]"
      "[item 1, item 2, item 5, item 10]"]
  note t2 = validation_precedence[of "[item 5]" sold_out "item 8" small_size "[item 99]"
      "[item 1]"]
  from t1 st have 1: "validateIngredients sold_out nofaults small_size [item 5, item 99, item 8] =
     Some (IngredientNotFound 99)"
    by (simp add: item_def)
  from t2 st f have 2: "validateIngredients sold_out nofaults small_size [item 5, item 8, item 99] =
     Some (NotAvailable ''Anchovies'')"
    by (simp add: item_def)
  from t1 st have 3: "validateIngredients sold_out nofaults small_size
      [item 1, item 2, item 5, item 10] = Some (SizeLimit ''Small'' 3)"
    by (simp add: item_def small_size_def)
  from dep have "\<exists>dep. (1, dep) \<in> set (ingredient_dependencies sold_out) \<and> dep \<noteq> 1"
    by (intro exI[of _ 2]) simp
  with t2 st have 4: "\<exists>a b. validateIngredients sold_out nofaults small_size [item 1] =
      Some (Requires a b)"
    by (simp add: item_def small_size_def)
  from 1 2 3 4 show ?thesis by simp
qed

section \<open>Creating an order and deleting it again\<close>


lemma decrementRow_sel [simp]:
  "ing_id (decrementRow r) = ing_id r"
  "availability (decrementRow r) = reserveUnit (availability r)"
  by (simp_all add: decrementRow_def reserveUnit_def split: option.splits)

lemma restoreRow_sel [simp]:
  "ing_id (restoreRow r) = ing_id r"
  "availability (restoreRow r) = releaseUnit (availability r)"
  by (simp_all add: restoreRow_def releaseUnit_def split: option.splits)

















end
